theory Spec2Isabelle
  imports
    Main
    "HOL-Library.Sublist"
    "HOL-Library.Char_ord"
    "HOL-Library.List_Lexorder"
begin

section \<open>The overlay file server \<^verbatim>\<open>serve.go\<close>: data model\<close>

text \<open>
  The program is one HTTP handler (\<^verbatim>\<open>makeHandler\<close>) over an ordered list of root
  directories. The embedding follows the Go text function by function.

  \<^item> Go strings are byte strings; they are \<^typ>\<open>string\<close> here, one \<^typ>\<open>char\<close> per byte.
  \<^item> The \<^verbatim>\<open>http.ResponseWriter\<close> that every function mutates is a record that is passed
    in and returned, together with the list of filesystem calls made so far.
  \<^item> The operating system (\<^verbatim>\<open>os.Stat\<close>, \<^verbatim>\<open>os.Open\<close>, reading a directory,
    \<^verbatim>\<open>filepath.Join\<close>) is a record of functions, fixed during one request. A call that
    returns a Go error returns \<open>None\<close>.
  \<^item> The process-wide flags \<^verbatim>\<open>index\<close> and \<^verbatim>\<open>noList\<close> are a record \<open>config\<close>.
  \<^item> Calls of the \<^verbatim>\<open>log\<close> package write to standard error only; they touch neither the
    response nor the filesystem and are left out, and so is the flag \<^verbatim>\<open>verbose\<close>, which
    guards nothing else.
\<close>

record request =
  URLPath :: string
  Accept :: string

text \<open>
  \<open>URLPath\<close> is \<^verbatim>\<open>r.URL.Path\<close> and \<open>Accept\<close> is \<^verbatim>\<open>r.Header.Get("Accept")\<close>: the two parts
  of a request the handler reads. A request is a plain \<^verbatim>\<open>GET\<close>: it carries no range and no
  conditional header.
\<close>

record FileInfo =
  fiName :: string
  fiIsDir :: bool
  fiModTime :: nat

record host =
  Join :: "string \<Rightarrow> string \<Rightarrow> string"
  Stat :: "string \<Rightarrow> FileInfo option"
  Open :: "string \<Rightarrow> string option"
  Readdir :: "string \<Rightarrow> FileInfo list option"

text \<open>
  \<open>Join\<close> is \<^verbatim>\<open>filepath.Join\<close> of two elements. \<open>Open\<close> gives the bytes that reading the
  opened file yields. \<open>Readdir\<close> is the raw enumeration of a directory
  (\<^verbatim>\<open>f.Readdir(-1)\<close>, "in directory order"); it fails on anything that is not a readable
  directory.
\<close>

datatype fsop = OpStat string | OpOpen string | OpReadDir string

record response =
  header :: "string \<rightharpoonup> string"
  status :: "nat option"
  body :: string

text \<open>\<open>status\<close> is \<open>None\<close> until a status line is written.\<close>

record conn =
  resp :: response
  fslog :: "fsop list"

record config =
  index :: string
  noList :: bool

record entry =
  Name :: string
  IsDir :: bool

record dirList =
  LocalPath :: string
  RequestPath :: string
  Entries :: "entry list"

section \<open>Standard-library functions the handler calls\<close>

subsection \<open>Package \<^verbatim>\<open>strings\<close>\<close>

definition Contains :: "string \<Rightarrow> string \<Rightarrow> bool" where
  "Contains s substr = sublist substr s"

text \<open>
  \<^verbatim>\<open>strings.FieldsFunc\<close> walks the string once; \<^verbatim>\<open>start\<close> is the beginning of the field
  being read, or negative between fields. Here the state is \<open>Some cur\<close> with the bytes of
  the field read so far, or \<open>None\<close>. The separators of this program are ASCII, so splitting
  bytes and splitting runes agree.
\<close>

fun fieldsLoop :: "(char \<Rightarrow> bool) \<Rightarrow> string option \<Rightarrow> string \<Rightarrow> string list" where
  "fieldsLoop f None [] = []"
| "fieldsLoop f (Some cur) [] = [cur]"
| "fieldsLoop f start (c # s) =
     (if f c then
        (case start of
           Some cur \<Rightarrow> cur # fieldsLoop f None s
         | None \<Rightarrow> fieldsLoop f None s)
      else
        (case start of
           None \<Rightarrow> fieldsLoop f (Some [c]) s
         | Some cur \<Rightarrow> fieldsLoop f (Some (cur @ [c])) s))"

definition FieldsFunc :: "string \<Rightarrow> (char \<Rightarrow> bool) \<Rightarrow> string list" where
  "FieldsFunc s f = fieldsLoop f None s"

subsection \<open>Package \<^verbatim>\<open>net/http\<close>: the response writer\<close>

definition WriteHeader :: "nat \<Rightarrow> response \<Rightarrow> response" where
  "WriteHeader code rs = (case status rs of None \<Rightarrow> rs\<lparr>status := Some code\<rparr> | Some _ \<Rightarrow> rs)"

definition Write :: "string \<Rightarrow> response \<Rightarrow> response" where
  "Write b rs = (let rs' = WriteHeader 200 rs in rs'\<lparr>body := body rs' @ b\<rparr>)"

definition Header_Set :: "string \<Rightarrow> string \<Rightarrow> response \<Rightarrow> response" where
  "Header_Set k v rs = rs\<lparr>header := (header rs)(k \<mapsto> v)\<rparr>"

definition http_Error :: "string \<Rightarrow> nat \<Rightarrow> response \<Rightarrow> response" where
  "http_Error msg code rs =
     Write (msg @ ''\<newline>'')
       (WriteHeader code
         (Header_Set ''X-Content-Type-Options'' ''nosniff''
           (Header_Set ''Content-Type'' ''text/plain; charset=utf-8'' rs)))"

definition http_NotFound :: "response \<Rightarrow> response" where
  "http_NotFound rs = http_Error ''404 page not found'' 404 rs"

text \<open>
  \<^verbatim>\<open>http.ServeContent\<close> answers a request that has no range and no conditional header
  with the whole content; the first write sets status 200. The headers it derives from
  the name and the modification time are not part of the model.
\<close>

definition http_ServeContent :: "request \<Rightarrow> string \<Rightarrow> nat \<Rightarrow> string \<Rightarrow> response \<Rightarrow> response" where
  "http_ServeContent r name modtime content rs = Write content rs"

text \<open>
  When a handler returns without having written a status line, the server sends
  \<^verbatim>\<open>200 OK\<close>. \<open>sentStatus\<close> is the status the client receives.
\<close>

definition sentStatus :: "response \<Rightarrow> nat" where
  "sentStatus rs = (case status rs of None \<Rightarrow> 200 | Some code \<Rightarrow> code)"

definition onResp :: "(response \<Rightarrow> response) \<Rightarrow> conn \<Rightarrow> conn" where
  "onResp f c = c\<lparr>resp := f (resp c)\<rparr>"

subsection \<open>Packages \<^verbatim>\<open>os\<close> and \<^verbatim>\<open>io/ioutil\<close>\<close>

definition os_Stat :: "host \<Rightarrow> string \<Rightarrow> conn \<Rightarrow> FileInfo option \<times> conn" where
  "os_Stat h p c = (Stat h p, c\<lparr>fslog := fslog c @ [OpStat p]\<rparr>)"

definition os_Open :: "host \<Rightarrow> string \<Rightarrow> conn \<Rightarrow> string option \<times> conn" where
  "os_Open h p c = (Open h p, c\<lparr>fslog := fslog c @ [OpOpen p]\<rparr>)"

text \<open>
  \<^verbatim>\<open>ioutil.ReadDir\<close> "returns a list of fs.FileInfo for the directory's contents, sorted
  by filename": it enumerates the directory and sorts the result with Go's string order,
  which compares bytes. The names in one directory are distinct, so the sort being stable
  or not makes no difference.
\<close>

definition ioutil_ReadDir :: "host \<Rightarrow> string \<Rightarrow> conn \<Rightarrow> FileInfo list option \<times> conn" where
  "ioutil_ReadDir h p c =
     (map_option (sort_key fiName) (Readdir h p), c\<lparr>fslog := fslog c @ [OpReadDir p]\<rparr>)"

subsection \<open>Package \<^verbatim>\<open>html/template\<close>: the escapers of the listing template\<close>

text \<open>
  The program only supplies the template; the escaping is the package's. The template
  has actions in two contexts. In element content (\<^verbatim>\<open>{{.LocalPath}}\<close>,
  \<^verbatim>\<open>{{.RequestPath}}\<close>, the second \<^verbatim>\<open>{{.Name}}\<close>) the package applies its HTML escaper.
  In the unquoted attribute \<^verbatim>\<open>href={{.Name}}\<close> it applies the URL filter, the URL
  normalizer and the escaper for unquoted attribute values, in this order. The
  definitions follow \<^verbatim>\<open>html.go\<close> and \<^verbatim>\<open>url.go\<close> of the package as of Go 1.21, on
  values of type \<^verbatim>\<open>string\<close>.
\<close>

definition htmlReplacementTable :: "char \<Rightarrow> string option" where
  "htmlReplacementTable c =
     (if c = CHR 0x00 then Some [CHR 0xEF, CHR 0xBF, CHR 0xBD]
      else if c = CHR 0x22 then Some ''&#34;''
      else if c = CHR ''&'' then Some ''&amp;''
      else if c = CHR 0x27 then Some ''&#39;''
      else if c = CHR ''+'' then Some ''&#43;''
      else if c = CHR ''<'' then Some ''&lt;''
      else if c = CHR ''>'' then Some ''&gt;''
      else None)"

definition htmlNospaceReplacementTable :: "char \<Rightarrow> string option" where
  "htmlNospaceReplacementTable c =
     (if c = CHR 0x00 then Some ''&#xfffd;''
      else if c = CHR 0x09 then Some ''&#9;''
      else if c = CHR 0x0A then Some ''&#10;''
      else if c = CHR 0x0B then Some ''&#11;''
      else if c = CHR 0x0C then Some ''&#12;''
      else if c = CHR 0x0D then Some ''&#13;''
      else if c = CHR '' '' then Some ''&#32;''
      else if c = CHR 0x22 then Some ''&#34;''
      else if c = CHR ''&'' then Some ''&amp;''
      else if c = CHR 0x27 then Some ''&#39;''
      else if c = CHR ''+'' then Some ''&#43;''
      else if c = CHR ''<'' then Some ''&lt;''
      else if c = CHR ''='' then Some ''&#61;''
      else if c = CHR ''>'' then Some ''&gt;''
      else if c = CHR 0x60 then Some ''&#96;''
      else None)"

definition htmlReplacer :: "string \<Rightarrow> (char \<Rightarrow> string option) \<Rightarrow> string" where
  "htmlReplacer s table =
     concat (map (\<lambda>c. case table c of Some repl \<Rightarrow> repl | None \<Rightarrow> [c]) s)"

text \<open>
  The HTML escaper replaces the bytes of its table and copies every other byte, also
  those of a rune beyond ASCII.
\<close>

definition htmlEscaper :: "string \<Rightarrow> string" where
  "htmlEscaper s = htmlReplacer s htmlReplacementTable"

text \<open>
  The escaper for unquoted attribute values returns a fixed word for the empty string.
  On runes beyond ASCII it differs from a byte-wise replacement, but in this template
  its argument is the output of the URL normalizer, which has ASCII bytes only.
\<close>

definition filterFailsafe :: string where
  "filterFailsafe = ''ZgotmplZ''"

definition htmlNospaceEscaper :: "string \<Rightarrow> string" where
  "htmlNospaceEscaper s =
     (if s = [] then filterFailsafe else htmlReplacer s htmlNospaceReplacementTable)"

text \<open>
  \<^verbatim>\<open>strings.EqualFold\<close> against a word of lower-case ASCII letters: a byte matches the
  letter or its capital, and the rune U+017F (bytes C5 BF), which folds to \<open>s\<close>,
  matches \<open>s\<close>. No other rune folds to a letter of the three protocol names.
\<close>

definition isUpper :: "char \<Rightarrow> bool" where
  "isUpper c = (CHR ''A'' \<le> c \<and> c \<le> CHR ''Z'')"

definition toLower :: "char \<Rightarrow> char" where
  "toLower c = (if isUpper c then char_of (of_char c + (32::nat)) else c)"

fun EqualFold :: "string \<Rightarrow> string \<Rightarrow> bool" where
  "EqualFold [] [] = True"
| "EqualFold [] (d # t) = False"
| "EqualFold (c # s) [] = False"
| "EqualFold (c # s) (d # t) =
     (if c < CHR 0x80 then toLower c = d \<and> EqualFold s t
      else (case s of
              c' # s' \<Rightarrow> c = CHR 0xC5 \<and> c' = CHR 0xBF \<and> d = CHR ''s'' \<and> EqualFold s' t
            | [] \<Rightarrow> False))"

definition isSafeURL :: "string \<Rightarrow> bool" where
  "isSafeURL s =
     (let protocol = takeWhile (\<lambda>c. c \<noteq> CHR '':'') s in
      if CHR '':'' \<in> set s \<and> CHR ''/'' \<notin> set protocol then
        EqualFold protocol ''http'' \<or> EqualFold protocol ''https'' \<or> EqualFold protocol ''mailto''
      else True)"

definition urlFilter :: "string \<Rightarrow> string" where
  "urlFilter s = (if \<not> isSafeURL s then ''#'' @ filterFailsafe else s)"

definition isHex :: "char \<Rightarrow> bool" where
  "isHex c =
     ((CHR ''0'' \<le> c \<and> c \<le> CHR ''9'') \<or> (CHR ''a'' \<le> c \<and> c \<le> CHR ''f'')
      \<or> (CHR ''A'' \<le> c \<and> c \<le> CHR ''F''))"

definition hexDigit :: "nat \<Rightarrow> char" where
  "hexDigit n = ''0123456789abcdef'' ! (n mod 16)"

definition percentEncode :: "char \<Rightarrow> string" where
  "percentEncode c = [CHR ''%'', hexDigit ((of_char c :: nat) div 16), hexDigit (of_char c)]"

definition urlKeep :: "char \<Rightarrow> string \<Rightarrow> bool" where
  "urlKeep c rest =
     (if c \<in> set ''!#$&*+,/:;=?@[]'' then True
      else if c \<in> set ''-._~'' then True
      else if c = CHR ''%'' then
        (case rest of a # b # _ \<Rightarrow> isHex a \<and> isHex b | _ \<Rightarrow> False)
      else (CHR ''a'' \<le> c \<and> c \<le> CHR ''z'') \<or> (CHR ''A'' \<le> c \<and> c \<le> CHR ''Z'')
           \<or> (CHR ''0'' \<le> c \<and> c \<le> CHR ''9''))"

fun urlNormalizer :: "string \<Rightarrow> string" where
  "urlNormalizer [] = []"
| "urlNormalizer (c # s) =
     (if urlKeep c s then c # urlNormalizer s else percentEncode c @ urlNormalizer s)"

definition hrefEscaper :: "string \<Rightarrow> string" where
  "hrefEscaper s = htmlNospaceEscaper (urlNormalizer (urlFilter s))"

section \<open>The program\<close>

subsection \<open>The listing template (constant \<^verbatim>\<open>html\<close>)\<close>

definition tab :: string where
  "tab = [CHR 0x09]"

definition dq :: string where
  "dq = [CHR 0x22]"

definition tmplHead :: string where
  "tmplHead =
     ''<!DOCTYPE html>\<newline><html>\<newline><head>\<newline>'' @
     tab @ ''<meta charset='' @ dq @ ''UTF-8'' @ dq @ ''>\<newline>'' @
     tab @ ''<style>\<newline>'' @
     tab @ tab @ ''body {\<newline>'' @
     tab @ tab @ tab @ ''font-size: 14px;\<newline>'' @
     tab @ tab @ tab @ ''font-family: consolas, '' @ dq @ ''Liberation Mono'' @ dq @ '', '' @
       dq @ ''DejaVu Sans Mono'' @ dq @ '', Menlo, monospace;\<newline>'' @
     tab @ tab @ ''}\<newline>'' @
     tab @ tab @ ''a {\<newline>'' @
     tab @ tab @ tab @ ''display: block;\<newline>'' @
     tab @ tab @ tab @ ''color: blue;\<newline>'' @
     tab @ tab @ tab @ ''text-decoration: none;\<newline>'' @
     tab @ tab @ ''}\<newline>'' @
     tab @ tab @ ''a:hover {\<newline>'' @
     tab @ tab @ tab @ ''background-color: #f3f3f3;\<newline>'' @
     tab @ tab @ ''}\<newline>'' @
     tab @ tab @ ''.req-path {\<newline>'' @
     tab @ tab @ tab @ ''color: #bbb;\<newline>'' @
     tab @ tab @ ''}\<newline>'' @
     tab @ ''</style>\<newline></head>\<newline><body>\<newline>'' @ tab"

definition renderEntry :: "entry \<Rightarrow> string" where
  "renderEntry e =
     ''\<newline>'' @ tab @ tab @ tab @
     ''<a class='' @ dq @ ''entry'' @ (if IsDir e then '' dir'' else []) @ dq @
     '' href='' @ hrefEscaper (Name e) @ ''>'' @
     htmlEscaper (Name e) @ (if IsDir e then ''/'' else []) @ ''</a>\<newline>'' @ tab @ tab"

definition renderDirList :: "dirList \<Rightarrow> string" where
  "renderDirList d =
     ''\<newline>'' @ tab @ tab @ ''<h3>\<newline>'' @ tab @ tab @ tab @
     ''<span class=local-path>'' @ htmlEscaper (LocalPath d) @
     ''</span><span class=req-path>'' @ htmlEscaper (RequestPath d) @
     ''</span>\<newline>'' @ tab @ tab @ ''</h3>\<newline>'' @ tab @ tab @
     concat (map renderEntry (Entries d)) @ ''\<newline>'' @ tab"

definition tmplFoot :: string where
  "tmplFoot = ''\<newline></body>\<newline>''"

definition renderPage :: "dirList list \<Rightarrow> string" where
  "renderPage dirLists = tmplHead @ concat (map renderDirList dirLists) @ tmplFoot"

definition htmlTmpl_Execute :: "dirList list \<Rightarrow> response \<Rightarrow> response" where
  "htmlTmpl_Execute dirLists rs = Write (renderPage dirLists) rs"

subsection \<open>\<^verbatim>\<open>validRequest\<close>\<close>

definition isSlashRune :: "char \<Rightarrow> bool" where
  "isSlashRune r = (r = CHR ''/'' \<or> r = CHR 0x5C)"

fun scanFields :: "string list \<Rightarrow> bool" where
  "scanFields [] = True"
| "scanFields (field # rest) = (if field = ''..'' then False else scanFields rest)"

definition validRequest :: "request \<Rightarrow> bool" where
  "validRequest r =
     (if \<not> Contains (URLPath r) ''..'' then True
      else scanFields (FieldsFunc (URLPath r) isSlashRune))"

subsection \<open>The file pass: \<^verbatim>\<open>tryFile\<close>, \<^verbatim>\<open>tryFiles\<close>\<close>

definition tryFile :: "host \<Rightarrow> request \<Rightarrow> string \<Rightarrow> conn \<Rightarrow> bool \<times> conn" where
  "tryFile h r filePath c =
     (case os_Stat h filePath c of
        (None, c1) \<Rightarrow> (False, c1)
      | (Some stat, c1) \<Rightarrow>
          if fiIsDir stat then (False, c1)
          else (case os_Open h filePath c1 of
                  (None, c2) \<Rightarrow> (False, c2)
                | (Some file, c2) \<Rightarrow>
                    (True, onResp (http_ServeContent r (fiName stat) (fiModTime stat) file) c2)))"

fun tryFiles :: "host \<Rightarrow> request \<Rightarrow> string list \<Rightarrow> conn \<Rightarrow> bool \<times> conn" where
  "tryFiles h r [] c = (False, c)"
| "tryFiles h r (dir # dirs) c =
     (let filePath = Join h dir (URLPath r);
          indexPath = Join h filePath ''index.html''
      in case tryFile h r filePath c of
           (True, c1) \<Rightarrow> (True, c1)
         | (False, c1) \<Rightarrow>
             (case tryFile h r indexPath c1 of
                (True, c2) \<Rightarrow> (True, c2)
              | (False, c2) \<Rightarrow> tryFiles h r dirs c2))"

subsection \<open>The fallback pass: \<^verbatim>\<open>staticIndex\<close>\<close>

definition staticIndex :: "host \<Rightarrow> config \<Rightarrow> request \<Rightarrow> conn \<Rightarrow> bool \<times> conn" where
  "staticIndex h cfg r c =
     (case os_Open h (index cfg) c of
        (file, c1) \<Rightarrow>
          (case os_Stat h (index cfg) c1 of
             (stat, c2) \<Rightarrow>
               (case (file, stat) of
                  (Some f, Some st) \<Rightarrow>
                    (True, onResp (http_ServeContent r (fiName st) (fiModTime st) f) c2)
                | _ \<Rightarrow> (False, c2))))"

subsection \<open>The listing pass: \<^verbatim>\<open>tryDirs\<close>\<close>

definition appendEntries :: "entry list \<Rightarrow> FileInfo list \<Rightarrow> entry list" where
  "appendEntries entries dirInfo =
     foldl (\<lambda>es file. es @ [\<lparr>Name = fiName file, IsDir = fiIsDir file\<rparr>]) entries dirInfo"

fun tryDirsLoop ::
  "host \<Rightarrow> request \<Rightarrow> string list \<Rightarrow> dirList list \<times> bool \<Rightarrow> conn \<Rightarrow> (dirList list \<times> bool) \<times> conn"
where
  "tryDirsLoop h r [] acc c = (acc, c)"
| "tryDirsLoop h r (dir # dirs) (dirLists, found) c =
     (let dirPath = Join h dir (URLPath r) in
      case ioutil_ReadDir h dirPath c of
        (None, c1) \<Rightarrow> tryDirsLoop h r dirs (dirLists, found) c1
      | (Some dirInfo, c1) \<Rightarrow>
          (let entries = appendEntries [\<lparr>Name = ''..'', IsDir = True\<rparr>] dirInfo in
           tryDirsLoop h r dirs
             (dirLists @ [\<lparr>LocalPath = dir, RequestPath = URLPath r, Entries = entries\<rparr>], True)
             c1))"

definition tryDirs :: "host \<Rightarrow> request \<Rightarrow> string list \<Rightarrow> conn \<Rightarrow> bool \<times> conn" where
  "tryDirs h r dirs c =
     (case tryDirsLoop h r dirs ([], False) c of
        ((dirLists, found), c1) \<Rightarrow>
          if found then
            (found,
             onResp (htmlTmpl_Execute dirLists)
               (onResp (Header_Set ''Content-Type'' ''text/html; charset=utf-8'') c1))
          else (found, c1))"

subsection \<open>The handler of \<^verbatim>\<open>makeHandler\<close>\<close>

definition version :: string where
  "version = ''HEAD''"

definition handler :: "host \<Rightarrow> config \<Rightarrow> string list \<Rightarrow> request \<Rightarrow> conn \<Rightarrow> conn" where
  "handler h cfg dirs r c0 =
     (let c = onResp (Header_Set ''Server'' (''serve/'' @ version)) c0 in
      if \<not> validRequest r then onResp (http_Error ''invalid path'' 400) c
      else
        (case tryFiles h r dirs c of
           (True, c1) \<Rightarrow> c1
         | (False, c1) \<Rightarrow>
             if \<not> Contains (Accept r) ''text/html'' then c1
             else
               (case (if length (index cfg) > 0 then staticIndex h cfg r c1 else (False, c1)) of
                  (True, c2) \<Rightarrow> c2
                | (False, c2) \<Rightarrow>
                    (case (if \<not> noList cfg then tryDirs h r dirs c2 else (False, c2)) of
                       (True, c3) \<Rightarrow> c3
                     | (False, c3) \<Rightarrow> onResp http_NotFound c3))))"

text \<open>A fresh connection: nothing written, no filesystem call made.\<close>

definition conn0 :: conn where
  "conn0 = \<lparr>resp = \<lparr>header = Map.empty, status = None, body = []\<rparr>, fslog = []\<rparr>"

section \<open>Notions in which the properties are stated\<close>

text \<open>
  The token scan as the specification describes it, without the fast path of
  \<^verbatim>\<open>validRequest\<close>.
\<close>

definition validRequest_plain :: "request \<Rightarrow> bool" where
  "validRequest_plain r = scanFields (FieldsFunc (URLPath r) isSlashRune)"

text \<open>
  Splitting a path at every forward slash and every back slash; two separators in a row
  give an empty token.
\<close>

fun splitSlash :: "string \<Rightarrow> string list" where
  "splitSlash [] = [[]]"
| "splitSlash (c # s) =
     (if isSlashRune c then [] # splitSlash s
      else (case splitSlash s of t # ts \<Rightarrow> (c # t) # ts | [] \<Rightarrow> [[c]]))"

text \<open>
  The paths the file pass looks at, for a list of roots: for each root the joined path
  and then that path with \<open>index.html\<close> appended.
\<close>

definition candidates :: "host \<Rightarrow> string list \<Rightarrow> string \<Rightarrow> string list" where
  "candidates h dirs p =
     concat (map (\<lambda>dir. [Join h dir p, Join h (Join h dir p) ''index.html'']) dirs)"

text \<open>A path resolves to a file that can be served: it stats, is no directory, and opens.\<close>

definition servable :: "host \<Rightarrow> string \<Rightarrow> bool" where
  "servable h path =
     (case Stat h path of
        None \<Rightarrow> False
      | Some st \<Rightarrow> \<not> fiIsDir st \<and> Open h path \<noteq> None)"

definition serveFile :: "host \<Rightarrow> request \<Rightarrow> string \<Rightarrow> response \<Rightarrow> response" where
  "serveFile h r path rs =
     (case (Stat h path, Open h path) of
        (Some st, Some content) \<Rightarrow> http_ServeContent r (fiName st) (fiModTime st) content rs
      | _ \<Rightarrow> rs)"

text \<open>The filesystem calls of one attempt on a path, and the paths a log has stat'ed.\<close>

definition probe :: "host \<Rightarrow> string \<Rightarrow> fsop list" where
  "probe h path =
     OpStat path #
     (case Stat h path of
        None \<Rightarrow> []
      | Some st \<Rightarrow> if fiIsDir st then [] else [OpOpen path])"

definition statPaths :: "fsop list \<Rightarrow> string list" where
  "statPaths ops = List.map_filter (\<lambda>op. case op of OpStat p \<Rightarrow> Some p | _ \<Rightarrow> None) ops"

text \<open>The listing of one root, and the listings of a list of roots, in the order of the roots.\<close>

definition toEntry :: "FileInfo \<Rightarrow> entry" where
  "toEntry file = \<lparr>Name = fiName file, IsDir = fiIsDir file\<rparr>"

definition parentEntry :: entry where
  "parentEntry = \<lparr>Name = ''..'', IsDir = True\<rparr>"

definition listingOf :: "host \<Rightarrow> string \<Rightarrow> string \<Rightarrow> dirList option" where
  "listingOf h p dir =
     map_option
       (\<lambda>infos. \<lparr>LocalPath = dir, RequestPath = p,
                 Entries = parentEntry # map toEntry (sort_key fiName infos)\<rparr>)
       (Readdir h (Join h dir p))"

definition listings :: "host \<Rightarrow> string list \<Rightarrow> string \<Rightarrow> dirList list" where
  "listings h dirs p = List.map_filter (listingOf h p) dirs"

definition enumerates :: "host \<Rightarrow> string \<Rightarrow> string \<Rightarrow> bool" where
  "enumerates h p dir = (Readdir h (Join h dir p) \<noteq> None)"

text \<open>The value of \<^verbatim>\<open>dirLists\<close> when the loop of \<^verbatim>\<open>tryDirs\<close> ends.\<close>

definition dirListsOf :: "host \<Rightarrow> request \<Rightarrow> string list \<Rightarrow> dirList list" where
  "dirListsOf h r dirs = fst (fst (tryDirsLoop h r dirs ([], False) conn0))"

text \<open>
  The characters that open or close a tag or a quoted attribute value, and the markup
  of a text: its subsequence of these characters.
\<close>

definition isMarkup :: "char \<Rightarrow> bool" where
  "isMarkup c = (c = CHR ''<'' \<or> c = CHR ''>'' \<or> c = CHR 0x22 \<or> c = CHR 0x27)"

definition markup :: "string \<Rightarrow> string" where
  "markup s = filter isMarkup s"

text \<open>
  The characters that end an unquoted attribute value or are an error inside one: white
  space, the angle brackets, the quotes, the grave accent, the equals sign and NUL.
\<close>

definition endsUnquoted :: "char \<Rightarrow> bool" where
  "endsUnquoted c =
     (c = CHR '' '' \<or> c = CHR 0x09 \<or> c = CHR 0x0A \<or> c = CHR 0x0B \<or> c = CHR 0x0C
      \<or> c = CHR 0x0D \<or> c = CHR ''>'' \<or> c = CHR ''<'' \<or> c = CHR 0x22 \<or> c = CHR 0x27
      \<or> c = CHR 0x60 \<or> c = CHR ''='' \<or> c = CHR 0x00)"

text \<open>A listing with every name and path replaced by a harmless one.\<close>

definition anonymous :: "dirList \<Rightarrow> dirList" where
  "anonymous d =
     \<lparr>LocalPath = [], RequestPath = [],
      Entries = map (\<lambda>e. \<lparr>Name = ''x'', IsDir = IsDir e\<rparr>) (Entries d)\<rparr>"

text \<open>The bytes the URL normalizer lets through or produces.\<close>

definition urlChar :: "char \<Rightarrow> bool" where
  "urlChar c =
     (c \<in> set ''!#$&*+,/:;=?@[]-._~%'' \<or> (CHR ''a'' \<le> c \<and> c \<le> CHR ''z'')
      \<or> (CHR ''A'' \<le> c \<and> c \<le> CHR ''Z'') \<or> (CHR ''0'' \<le> c \<and> c \<le> CHR ''9''))"

section \<open>Example hosts and requests\<close>

text \<open>
  A small filesystem given by a table of files (path, info, content) and a table of
  directories (path, info, raw enumeration). Opening a directory succeeds, as
  \<^verbatim>\<open>os.Open\<close> does; it yields no bytes. \<open>slashJoin\<close> agrees with \<^verbatim>\<open>filepath.Join\<close> on
  the paths of the examples, which are clean and do not end in a slash.
\<close>

definition slashJoin :: "string \<Rightarrow> string \<Rightarrow> string" where
  "slashJoin a b = (case b of [] \<Rightarrow> a | c # _ \<Rightarrow> if c = CHR ''/'' then a @ b else a @ ''/'' @ b)"

definition exFile :: "string \<Rightarrow> FileInfo" where
  "exFile name = \<lparr>fiName = name, fiIsDir = False, fiModTime = 0\<rparr>"

definition exDir :: "string \<Rightarrow> FileInfo" where
  "exDir name = \<lparr>fiName = name, fiIsDir = True, fiModTime = 0\<rparr>"

definition exampleHost ::
  "(string \<times> FileInfo \<times> string) list \<Rightarrow> (string \<times> FileInfo \<times> FileInfo list) list \<Rightarrow> host" where
  "exampleHost files dirs =
     \<lparr>Join = slashJoin,
      Stat = (\<lambda>p. case map_of files p of
                     Some (fi, _) \<Rightarrow> Some fi
                   | None \<Rightarrow> map_option fst (map_of dirs p)),
      Open = (\<lambda>p. case map_of files p of
                     Some (_, content) \<Rightarrow> Some content
                   | None \<Rightarrow> map_option (\<lambda>_. []) (map_of dirs p)),
      Readdir = (\<lambda>p. map_option snd (map_of dirs p))\<rparr>"

text \<open>Two roots that both hold \<open>foo.txt\<close>.\<close>

definition hostAB :: host where
  "hostAB = exampleHost
     [(''A/foo.txt'', exFile ''foo.txt'', ''from A''), (''B/foo.txt'', exFile ''foo.txt'', ''from B'')]
     [(''A'', exDir ''A'', [exFile ''foo.txt'']), (''B'', exDir ''B'', [exFile ''foo.txt''])]"

text \<open>A root \<open>site\<close> and, outside it, the fallback resource \<open>app/index.html\<close>.\<close>

definition hostSPA :: host where
  "hostSPA = exampleHost
     [(''app/index.html'', exFile ''index.html'', ''<html>app</html>'')]
     [(''site'', exDir ''site'', [exFile ''logo.png'']),
      (''app'', exDir ''app'', [exFile ''index.html''])]"

text \<open>
  Under root \<open>A\<close> a directory \<open>docs\<close> that the filesystem enumerates as \<open>b.txt\<close>,
  \<open>a.txt\<close>; under root \<open>B\<close> an empty directory \<open>docs\<close>.
\<close>

definition hostBA :: host where
  "hostBA = exampleHost []
     [(''A/docs'', exDir ''docs'', [exFile ''b.txt'', exFile ''a.txt'']),
      (''B/docs'', exDir ''docs'', [])]"

text \<open>Root \<open>A\<close> has a file named \<open>sub\<close>, root \<open>B\<close> a directory named \<open>sub\<close>.\<close>

definition hostSub :: host where
  "hostSub = exampleHost
     [(''A/sub'', exFile ''sub'', ''a file named sub'')]
     [(''B/sub'', exDir ''sub'', [exFile ''inner.txt''])]"

text \<open>A directory with a file whose name looks like a tag.\<close>

definition hostScript :: host where
  "hostScript = exampleHost [(''A/docs/<script>.txt'', exFile ''<script>.txt'', ''x'')]
     [(''A/docs'', exDir ''docs'', [exFile ''<script>.txt''])]"

definition reqDocs :: request where
  "reqDocs = \<lparr>URLPath = ''/docs'', Accept = ''text/html''\<rparr>"

definition reqSub :: request where
  "reqSub = \<lparr>URLPath = ''/sub'', Accept = ''text/html''\<rparr>"

definition reqFoo :: request where
  "reqFoo = \<lparr>URLPath = ''/foo.txt'', Accept = ''text/html''\<rparr>"

definition reqTraversal :: request where
  "reqTraversal = \<lparr>URLPath = ''/../etc/passwd'', Accept = ''text/html''\<rparr>"

definition reqImage :: request where
  "reqImage = \<lparr>URLPath = ''/missing.png'', Accept = ''image/png,*/*''\<rparr>"

definition reqAnything :: request where
  "reqAnything = \<lparr>URLPath = ''/anything'', Accept = ''text/html,application/xhtml+xml''\<rparr>"

definition cfgDefault :: config where
  "cfgDefault = \<lparr>index = [], noList = False\<rparr>"

definition cfgSPA :: config where
  "cfgSPA = \<lparr>index = ''app/index.html'', noList = False\<rparr>"

section \<open>Request validation\<close>

lemma scanFields_iff: "scanFields fs \<longleftrightarrow> ''..'' \<notin> set fs"
  by (induction fs) auto

lemma fieldsLoop_sublist:
  "x \<in> set (fieldsLoop f st s) \<Longrightarrow> sublist x ((case st of None \<Rightarrow> [] | Some cur \<Rightarrow> cur) @ s)"
proof (induction s arbitrary: st)
  case Nil
  then show ?case by (cases st) auto
next
  case (Cons c s)
  show ?case
  proof (cases st)
    case None
    with Cons.prems have "x \<in> set (fieldsLoop f None s) \<or> x \<in> set (fieldsLoop f (Some [c]) s)"
      by (auto split: if_splits)
    then show ?thesis
    proof
      assume "x \<in> set (fieldsLoop f None s)"
      from Cons.IH[OF this] have "sublist x s" by simp
      then show ?thesis using None by (simp add: sublist_Cons_right)
    next
      assume "x \<in> set (fieldsLoop f (Some [c]) s)"
      from Cons.IH[OF this] show ?thesis using None by simp
    qed
  next
    case (Some cur)
    with Cons.prems have
      "x = cur \<or> x \<in> set (fieldsLoop f None s) \<or> x \<in> set (fieldsLoop f (Some (cur @ [c])) s)"
      by (auto split: if_splits)
    then show ?thesis
    proof (elim disjE)
      assume "x = cur"
      then show ?thesis using Some by simp
    next
      assume "x \<in> set (fieldsLoop f None s)"
      from Cons.IH[OF this] have "sublist x s" by simp
      then obtain ps ss where "s = ps @ x @ ss" unfolding sublist_def by blast
      then have "(cur @ [c]) @ s = ((cur @ [c]) @ ps) @ x @ ss" by simp
      then have "sublist x ((cur @ [c]) @ s)" unfolding sublist_def by blast
      then show ?thesis using Some by simp
    next
      assume "x \<in> set (fieldsLoop f (Some (cur @ [c])) s)"
      from Cons.IH[OF this] show ?thesis using Some by simp
    qed
  qed
qed

lemma field_Contains: "x \<in> set (FieldsFunc s f) \<Longrightarrow> Contains s x"
  using fieldsLoop_sublist[of x f None s] by (simp add: FieldsFunc_def Contains_def)

lemma validRequest_scan: "validRequest r \<longleftrightarrow> ''..'' \<notin> set (FieldsFunc (URLPath r) isSlashRune)"
  unfolding validRequest_def
  using field_Contains[of "''..''" "URLPath r" isSlashRune]
  by (auto simp: scanFields_iff)

lemma splitSlash_ne: "splitSlash s \<noteq> []"
  by (induction s) (auto split: list.splits)

lemma fieldsLoop_split:
  "fieldsLoop isSlashRune st s =
     (case st of
        None \<Rightarrow> filter (\<lambda>t. t \<noteq> []) (splitSlash s)
      | Some cur \<Rightarrow> (cur @ hd (splitSlash s)) # filter (\<lambda>t. t \<noteq> []) (tl (splitSlash s)))"
proof (induction s arbitrary: st)
  case Nil
  then show ?case by (cases st) auto
next
  case (Cons c s)
  obtain t ts where ts: "splitSlash s = t # ts"
    using splitSlash_ne[of s] by (cases "splitSlash s") auto
  show ?case
    by (cases st) (auto simp: Cons.IH ts)
qed

lemma FieldsFunc_split: "FieldsFunc s isSlashRune = filter (\<lambda>t. t \<noteq> []) (splitSlash s)"
  by (simp add: FieldsFunc_def fieldsLoop_split)

text \<open>
  Claim C2. \<^verbatim>\<open>validRequest\<close> rejects a path exactly when one of the tokens between its
  forward and back slashes is \<open>..\<close>. So a path in which \<open>..\<close> only occurs inside a
  longer token, none of its tokens being \<open>..\<close> itself, is accepted.
\<close>

theorem validRequest_token_check:
  "(\<not> validRequest r) = (''..'' \<in> set (splitSlash (URLPath r)))"
  by (auto simp: validRequest_scan FieldsFunc_split)

theorem validRequest_token_check_witness:
  "validRequest \<lparr>URLPath = ''/docs/a..b'', Accept = []\<rparr>
   \<and> \<not> validRequest \<lparr>URLPath = ''/docs/../secret'', Accept = []\<rparr>
   \<and> \<not> validRequest \<lparr>URLPath = ''/docs'' @ [CHR 0x5C] @ ''..'', Accept = []\<rparr>"
  using validRequest_token_check[of "\<lparr>URLPath = ''/docs/a..b'', Accept = []\<rparr>"]
    validRequest_token_check[of "\<lparr>URLPath = ''/docs/../secret'', Accept = []\<rparr>"]
    validRequest_token_check[of "\<lparr>URLPath = ''/docs'' @ [CHR 0x5C] @ ''..'', Accept = []\<rparr>"]
  by (simp add: isSlashRune_def)

text \<open>
  Claim C10. The fast path of \<^verbatim>\<open>validRequest\<close> (accept at once a path that does not
  contain \<open>..\<close> as a substring) changes no result: the function returns what the plain
  scan of all tokens returns.
\<close>

theorem validRequest_fast_path_equiv: "validRequest r = validRequest_plain r"
  by (simp add: validRequest_scan validRequest_plain_def scanFields_iff)

section \<open>The passes as functions of the filesystem\<close>

lemma tryFile_eq:
  "tryFile h r p c =
     (servable h p,
      c\<lparr>resp := (if servable h p then serveFile h r p (resp c) else resp c),
        fslog := fslog c @ probe h p\<rparr>)"
  by (cases "Stat h p"; cases "Open h p")
     (auto simp: tryFile_def os_Stat_def os_Open_def servable_def serveFile_def probe_def onResp_def)

lemma tryFiles_eq:
  "tryFiles h r dirs c =
     (case find (servable h) (candidates h dirs (URLPath r)) of
        None \<Rightarrow>
          (False, c\<lparr>fslog := fslog c @ concat (map (probe h) (candidates h dirs (URLPath r)))\<rparr>)
      | Some path \<Rightarrow>
          (True,
           c\<lparr>resp := serveFile h r path (resp c),
             fslog := fslog c @
               concat (map (probe h)
                 (takeWhile (\<lambda>q. \<not> servable h q) (candidates h dirs (URLPath r)) @ [path]))\<rparr>))"
proof (induction dirs arbitrary: c)
  case Nil
  show ?case by (simp add: candidates_def)
next
  case (Cons dir dirs)
  have cs: "candidates h (dir # dirs) (URLPath r) =
      Join h dir (URLPath r) # Join h (Join h dir (URLPath r)) ''index.html'' #
      candidates h dirs (URLPath r)"
    by (simp add: candidates_def)
  show ?case
    unfolding cs
    by (simp add: tryFile_eq Cons.IH Let_def split: option.splits)
qed

lemma statPaths_append: "statPaths (xs @ ys) = statPaths xs @ statPaths ys"
  by (simp add: statPaths_def map_filter_def)

lemma statPaths_probe: "statPaths (concat (map (probe h) ps)) = ps"
  by (induction ps) (auto simp: statPaths_def map_filter_def probe_def split: option.splits)

lemma statPaths_probe1: "statPaths (probe h p) = [p]"
  using statPaths_probe[of h "[p]"] by simp

lemma tryFiles_result:
  "fst (tryFiles h r dirs c) = (find (servable h) (candidates h dirs (URLPath r)) \<noteq> None)"
  by (simp add: tryFiles_eq split: option.splits)

lemma tryFiles_resp:
  "resp (snd (tryFiles h r dirs c)) =
     (case find (servable h) (candidates h dirs (URLPath r)) of
        None \<Rightarrow> resp c
      | Some path \<Rightarrow> serveFile h r path (resp c))"
  by (simp add: tryFiles_eq split: option.splits)

lemma tryFiles_statPaths:
  "statPaths (fslog (snd (tryFiles h r dirs c))) =
     statPaths (fslog c) @
     (case find (servable h) (candidates h dirs (URLPath r)) of
        None \<Rightarrow> candidates h dirs (URLPath r)
      | Some path \<Rightarrow> takeWhile (\<lambda>q. \<not> servable h q) (candidates h dirs (URLPath r)) @ [path])"
  by (simp add: tryFiles_eq statPaths_append statPaths_probe statPaths_probe1 split: option.splits)

lemma tryFiles_first_root:
  assumes "servable h (Join h A (URLPath r))"
  shows "resp (snd (tryFiles h r (A # rest) c)) = serveFile h r (Join h A (URLPath r)) (resp c)"
proof -
  have "find (servable h) (candidates h (A # rest) (URLPath r)) = Some (Join h A (URLPath r))"
    using assms by (simp add: candidates_def)
  then show ?thesis by (simp only: tryFiles_resp option.case)
qed

text \<open>
  Claim C1. For every list of roots and every request, the file pass looks at the
  candidate paths in the interleaved order (root by root, the joined path and then its
  \<open>index.html\<close>): the paths it stats are this list up to and including the first one that
  resolves to a file, and that file is the one it serves; it returns false and leaves the
  response alone when there is none. In particular with roots \<open>[A, B]\<close>, when the path
  resolves to a file under \<open>A\<close>, the file of \<open>A\<close> is served whatever \<open>B\<close> holds.
\<close>

theorem tryFiles_first_match:
  "fst (tryFiles h r dirs c) = (find (servable h) (candidates h dirs (URLPath r)) \<noteq> None)
   \<and> resp (snd (tryFiles h r dirs c)) =
       (case find (servable h) (candidates h dirs (URLPath r)) of
          None \<Rightarrow> resp c
        | Some path \<Rightarrow> serveFile h r path (resp c))
   \<and> statPaths (fslog (snd (tryFiles h r dirs c))) =
       statPaths (fslog c) @
       (case find (servable h) (candidates h dirs (URLPath r)) of
          None \<Rightarrow> candidates h dirs (URLPath r)
        | Some path \<Rightarrow> takeWhile (\<lambda>q. \<not> servable h q) (candidates h dirs (URLPath r)) @ [path])
   \<and> (servable h (Join h A (URLPath r)) \<longrightarrow>
        resp (snd (tryFiles h r [A, B] c)) = serveFile h r (Join h A (URLPath r)) (resp c))"
  using tryFiles_result[of h r dirs c] tryFiles_resp[of h r dirs c] tryFiles_statPaths[of h r dirs c]
    tryFiles_first_root[of h A r "[B]" c]
  by blast

theorem tryFiles_first_match_witness:
  "servable hostAB (Join hostAB ''A'' (URLPath reqFoo))
   \<and> servable hostAB (Join hostAB ''B'' (URLPath reqFoo))
   \<and> body (resp (snd (tryFiles hostAB reqFoo [''A'', ''B''] conn0))) = ''from A''
   \<and> statPaths (fslog (snd (tryFiles hostAB reqFoo [''B'', ''A''] conn0))) = [''B/foo.txt'']"
proof -
  have a: "servable hostAB (Join hostAB ''A'' (URLPath reqFoo))"
    by (simp add: hostAB_def reqFoo_def exampleHost_def slashJoin_def exFile_def conn0_def servable_def)
  have b: "servable hostAB (Join hostAB ''B'' (URLPath reqFoo))"
    by (simp add: hostAB_def reqFoo_def exampleHost_def slashJoin_def exFile_def conn0_def servable_def)
  have "resp (snd (tryFiles hostAB reqFoo [''A'', ''B''] conn0)) =
      serveFile hostAB reqFoo (Join hostAB ''A'' (URLPath reqFoo)) (resp conn0)"
    using tryFiles_first_match[of hostAB reqFoo "[]" conn0 "''A''" "''B''"] a by blast
  then have c: "body (resp (snd (tryFiles hostAB reqFoo [''A'', ''B''] conn0))) = ''from A''"
    by (simp add: hostAB_def reqFoo_def exampleHost_def slashJoin_def exFile_def conn0_def serveFile_def http_ServeContent_def Write_def WriteHeader_def)
  have "find (servable hostAB) (candidates hostAB [''B'', ''A''] (URLPath reqFoo)) =
      Some ''B/foo.txt''"
    using b by (simp add: candidates_def) (simp add: hostAB_def reqFoo_def exampleHost_def slashJoin_def exFile_def conn0_def)
  then have d:
    "statPaths (fslog (snd (tryFiles hostAB reqFoo [''B'', ''A''] conn0))) = [''B/foo.txt'']"
    using tryFiles_first_match[of hostAB reqFoo "[''B'', ''A'']" conn0 "''A''" "''B''"] b
    by (simp add: candidates_def statPaths_def map_filter_def) (simp add: hostAB_def reqFoo_def exampleHost_def slashJoin_def exFile_def conn0_def)
  from a b c d show ?thesis by blast
qed

section \<open>The handler\<close>

lemma handler_invalid:
  "\<not> validRequest r \<Longrightarrow>
   handler h cfg dirs r c =
     onResp (http_Error ''invalid path'' 400)
       (onResp (Header_Set ''Server'' (''serve/'' @ version)) c)"
  by (simp add: handler_def)

lemma status_http_Error:
  "status (http_Error msg code rs) = (case status rs of None \<Rightarrow> Some code | Some s \<Rightarrow> Some s)"
  by (simp add: http_Error_def Write_def WriteHeader_def Header_Set_def Let_def split: option.splits)

lemma body_http_Error: "body (http_Error msg code rs) = body rs @ msg @ ''\<newline>''"
  by (simp add: http_Error_def Write_def WriteHeader_def Header_Set_def Let_def split: option.splits)

text \<open>
  Claim C8. When the path of a request fails validation, the handler makes no
  filesystem call at all (the log of calls is what it was), writes the message
  \<open>invalid path\<close> and, on a response that has no status line yet, status 400. Validation
  comes first: nothing of the resolution runs.
\<close>

theorem invalid_path_400_no_filesystem:
  assumes "\<not> validRequest r"
  shows "fslog (handler h cfg dirs r c) = fslog c
    \<and> body (resp (handler h cfg dirs r c)) = body (resp c) @ ''invalid path\<newline>''
    \<and> (status (resp c) = None \<longrightarrow>
         status (resp (handler h cfg dirs r c)) = Some 400
         \<and> sentStatus (resp (handler h cfg dirs r c)) = 400)"
  using assms
  by (simp add: handler_invalid onResp_def status_http_Error body_http_Error sentStatus_def
      Header_Set_def)

theorem invalid_path_400_no_filesystem_witness:
  "\<not> validRequest reqTraversal
   \<and> fslog (handler hostAB cfgDefault [''A'', ''B''] reqTraversal conn0) = []
   \<and> sentStatus (resp (handler hostAB cfgDefault [''A'', ''B''] reqTraversal conn0)) = 400"
proof -
  have a: "\<not> validRequest reqTraversal"
    by (simp add: validRequest_scan reqTraversal_def FieldsFunc_def isSlashRune_def)
  from invalid_path_400_no_filesystem[OF a, of hostAB cfgDefault "[''A'', ''B'']" conn0] a
  show ?thesis by (simp add: conn0_def)
qed

lemma handler_no_markup:
  assumes "validRequest r"
    and "find (servable h) (candidates h dirs (URLPath r)) = None"
    and "\<not> Contains (Accept r) ''text/html''"
  shows "resp (handler h cfg dirs r c) = Header_Set ''Server'' (''serve/'' @ version) (resp c)"
  using assms by (simp add: handler_def tryFiles_eq onResp_def)

text \<open>
  Claim C3, evaluated. The request asks for \<open>/missing.png\<close>, which no root holds, and
  accepts \<open>image/png,*/*\<close>. The handler returns at its check of the \<open>Accept\<close> header
  without writing: no status line and no body. The status the client receives is then
  200, not 404.
\<close>

theorem no_markup_miss_sends_200:
  "validRequest reqImage
   \<and> find (servable hostAB) (candidates hostAB [''A'', ''B''] (URLPath reqImage)) = None
   \<and> \<not> Contains (Accept reqImage) ''text/html''
   \<and> status (resp (handler hostAB cfgDefault [''A'', ''B''] reqImage conn0)) = None
   \<and> body (resp (handler hostAB cfgDefault [''A'', ''B''] reqImage conn0)) = []
   \<and> sentStatus (resp (handler hostAB cfgDefault [''A'', ''B''] reqImage conn0)) = 200"
proof -
  have a: "validRequest reqImage"
    by (simp add: validRequest_scan reqImage_def FieldsFunc_def isSlashRune_def)
  have b: "find (servable hostAB) (candidates hostAB [''A'', ''B''] (URLPath reqImage)) = None"
    by (simp add: candidates_def servable_def hostAB_def reqImage_def exampleHost_def slashJoin_def exFile_def exDir_def)
  have c: "\<not> Contains (Accept reqImage) ''text/html''"
    by code_simp
  from handler_no_markup[OF a b c, of cfgDefault conn0] a b c
  show ?thesis by (simp add: conn0_def Header_Set_def sentStatus_def)
qed

lemma handler_fallback:
  assumes "validRequest r"
    and "find (servable h) (candidates h dirs (URLPath r)) = None"
    and "Contains (Accept r) ''text/html''"
    and "index cfg \<noteq> []"
    and "Open h (index cfg) = Some f"
    and "Stat h (index cfg) = Some st"
  shows "handler h cfg dirs r c =
     c\<lparr>resp := http_ServeContent r (fiName st) (fiModTime st) f
                 (Header_Set ''Server'' (''serve/'' @ version) (resp c)),
       fslog := fslog c @ concat (map (probe h) (candidates h dirs (URLPath r)))
                @ [OpOpen (index cfg), OpStat (index cfg)]\<rparr>"
  using assms
  by (simp add: handler_def tryFiles_eq onResp_def staticIndex_def os_Open_def os_Stat_def)

text \<open>
  Claim C7. Take a valid request for which no candidate path of any root resolves to
  a file and whose \<open>Accept\<close> header contains \<open>text/html\<close>, and a configured fallback path
  that opens and stats. Then the handler answers with the content of the fallback
  resource and status 200, whatever the list of roots is.
\<close>

theorem fallback_served:
  assumes "validRequest r"
    and "find (servable h) (candidates h dirs (URLPath r)) = None"
    and "Contains (Accept r) ''text/html''"
    and "index cfg \<noteq> []"
    and "Open h (index cfg) = Some f"
    and "Stat h (index cfg) = Some st"
    and "status (resp c) = None"
  shows "status (resp (handler h cfg dirs r c)) = Some 200
    \<and> sentStatus (resp (handler h cfg dirs r c)) = 200
    \<and> body (resp (handler h cfg dirs r c)) = body (resp c) @ f"
  using assms(7)
  by (simp add: handler_fallback[OF assms(1-6)] http_ServeContent_def Write_def WriteHeader_def
      Header_Set_def sentStatus_def)

theorem fallback_served_witness:
  "validRequest reqAnything
   \<and> find (servable hostSPA) (candidates hostSPA [''site''] (URLPath reqAnything)) = None
   \<and> Contains (Accept reqAnything) ''text/html''
   \<and> index cfgSPA \<noteq> []
   \<and> sentStatus (resp (handler hostSPA cfgSPA [''site''] reqAnything conn0)) = 200
   \<and> body (resp (handler hostSPA cfgSPA [''site''] reqAnything conn0)) = ''<html>app</html>''"
proof -
  have a: "validRequest reqAnything"
    by (simp add: validRequest_scan reqAnything_def FieldsFunc_def isSlashRune_def)
  have b: "find (servable hostSPA) (candidates hostSPA [''site''] (URLPath reqAnything)) = None"
    by (simp add: candidates_def servable_def hostSPA_def reqAnything_def cfgSPA_def exampleHost_def slashJoin_def exFile_def exDir_def)
  have c: "Contains (Accept reqAnything) ''text/html''"
    by code_simp
  have d: "index cfgSPA \<noteq> []" by (simp add: cfgSPA_def)
  have e: "Open hostSPA (index cfgSPA) = Some ''<html>app</html>''"
    by (simp add: hostSPA_def reqAnything_def cfgSPA_def exampleHost_def slashJoin_def exFile_def exDir_def)
  have f: "Stat hostSPA (index cfgSPA) = Some (exFile ''index.html'')"
    by (simp add: hostSPA_def reqAnything_def cfgSPA_def exampleHost_def slashJoin_def exFile_def exDir_def)
  have g: "status (resp conn0) = None" by (simp add: conn0_def)
  from fallback_served[OF a b c d e f g] a b c d
  show ?thesis by (simp add: conn0_def)
qed

section \<open>The listing pass\<close>

lemma appendEntries_eq: "appendEntries es infos = es @ map toEntry infos"
  unfolding appendEntries_def
  by (induction infos arbitrary: es) (simp_all add: toEntry_def)

lemma listings_Nil: "listings h [] p = []"
  by (simp add: listings_def map_filter_def)

lemma listings_Cons:
  "listings h (dir # dirs) p =
     (case listingOf h p dir of None \<Rightarrow> listings h dirs p | Some d \<Rightarrow> d # listings h dirs p)"
  by (simp add: listings_def map_filter_def split: option.splits)

lemma tryDirsLoop_eq:
  "tryDirsLoop h r dirs (dls, found) c =
     ((dls @ listings h dirs (URLPath r), found \<or> listings h dirs (URLPath r) \<noteq> []),
      c\<lparr>fslog := fslog c @ map (\<lambda>dir. OpReadDir (Join h dir (URLPath r))) dirs\<rparr>)"
proof (induction dirs arbitrary: dls found c)
  case Nil
  show ?case by (simp add: listings_Nil)
next
  case (Cons dir dirs)
  show ?case
  proof (cases "Readdir h (Join h dir (URLPath r))")
    case None
    then show ?thesis
      by (simp add: Cons.IH ioutil_ReadDir_def listings_Cons listingOf_def)
  next
    case (Some infos)
    then show ?thesis
      by (simp add: Cons.IH ioutil_ReadDir_def listings_Cons listingOf_def appendEntries_eq
          parentEntry_def)
  qed
qed

lemma dirListsOf_eq: "dirListsOf h r dirs = listings h dirs (URLPath r)"
  by (simp add: dirListsOf_def tryDirsLoop_eq)

lemma tryDirs_eq:
  "tryDirs h r dirs c =
     (listings h dirs (URLPath r) \<noteq> [],
      c\<lparr>resp :=
          (if listings h dirs (URLPath r) = [] then resp c
           else htmlTmpl_Execute (listings h dirs (URLPath r))
                  (Header_Set ''Content-Type'' ''text/html; charset=utf-8'' (resp c))),
        fslog := fslog c @ map (\<lambda>dir. OpReadDir (Join h dir (URLPath r))) dirs\<rparr>)"
  by (simp add: tryDirs_def tryDirsLoop_eq onResp_def)

lemma LocalPath_listings:
  "map LocalPath (listings h dirs p) = filter (enumerates h p) dirs"
  by (induction dirs)
     (auto simp: listings_Nil listings_Cons listingOf_def enumerates_def split: option.splits)

lemma listings_empty_iff: "listings h dirs p = [] \<longleftrightarrow> filter (enumerates h p) dirs = []"
  using LocalPath_listings[of h dirs p] by (metis map_is_Nil_conv)

lemma Entries_listings:
  "map Entries (listings h dirs p) =
     map (\<lambda>infos. parentEntry # map toEntry (sort_key fiName infos))
       (List.map_filter (\<lambda>dir. Readdir h (Join h dir p)) dirs)"
  by (induction dirs)
     (auto simp: listings_Nil listings_Cons listingOf_def map_filter_def split: option.splits)

lemma sort_key_sorted: "sorted (map f xs) \<Longrightarrow> sort_key f xs = xs"
  by (simp add: sort_key_id_if_sorted)

text \<open>
  Claim C6. The listing pass keeps one listing for each root whose joined directory
  can be enumerated, in the order of the roots, and skips every other root without a
  trace in the response: it returns true exactly when some root enumerates; then the
  response is the page of all the kept listings, one after the other, with status 200 on
  a response that had no status line; otherwise the response is untouched.
\<close>

theorem tryDirs_overlay:
  "map LocalPath (dirListsOf h r dirs) = filter (enumerates h (URLPath r)) dirs
   \<and> fst (tryDirs h r dirs c) = (filter (enumerates h (URLPath r)) dirs \<noteq> [])
   \<and> resp (snd (tryDirs h r dirs c)) =
       (if filter (enumerates h (URLPath r)) dirs = [] then resp c
        else htmlTmpl_Execute (dirListsOf h r dirs)
               (Header_Set ''Content-Type'' ''text/html; charset=utf-8'' (resp c)))
   \<and> (status (resp c) = None \<longrightarrow>
        sentStatus (resp (snd (tryDirs h r dirs c))) = 200
        \<and> body (resp (snd (tryDirs h r dirs c))) =
            (if filter (enumerates h (URLPath r)) dirs = [] then body (resp c)
             else body (resp c) @ renderPage (dirListsOf h r dirs)))"
  by (simp add: dirListsOf_eq tryDirs_eq LocalPath_listings listings_empty_iff sentStatus_def
      htmlTmpl_Execute_def Write_def WriteHeader_def Header_Set_def)

theorem tryDirs_overlay_witness:
  "status (resp conn0) = None
   \<and> map LocalPath (dirListsOf hostBA reqDocs [''A'', ''missing'', ''B'']) = [''A'', ''B'']
   \<and> fst (tryDirs hostBA reqDocs [''A'', ''missing'', ''B''] conn0)
   \<and> sentStatus (resp (snd (tryDirs hostBA reqDocs [''A'', ''missing'', ''B''] conn0))) = 200
   \<and> \<not> fst (tryDirs hostBA reqDocs [''missing''] conn0)
   \<and> resp (snd (tryDirs hostBA reqDocs [''missing''] conn0)) = resp conn0"
proof -
  let ?three = "[''A'', ''missing'', ''B'']"
  have a: "status (resp conn0) = None" by (simp add: conn0_def)
  have b: "filter (enumerates hostBA (URLPath reqDocs)) ?three = [''A'', ''B'']"
    by (simp add: enumerates_def hostBA_def reqDocs_def exampleHost_def slashJoin_def)
  have c: "filter (enumerates hostBA (URLPath reqDocs)) [''missing''] = []"
    by (simp add: enumerates_def hostBA_def reqDocs_def exampleHost_def slashJoin_def)
  note three = tryDirs_overlay[of hostBA reqDocs ?three conn0]
  note one = tryDirs_overlay[of hostBA reqDocs "[''missing'']" conn0]
  have 1: "map LocalPath (dirListsOf hostBA reqDocs ?three) = [''A'', ''B'']"
    using three b by (simp only:)
  have 2: "fst (tryDirs hostBA reqDocs ?three conn0)"
    using three b by (simp only: list.simps simp_thms if_True if_False)
  have 3: "sentStatus (resp (snd (tryDirs hostBA reqDocs ?three conn0))) = 200"
    using three a by blast
  have 4: "\<not> fst (tryDirs hostBA reqDocs [''missing''] conn0)"
    using one c by (simp only: list.simps simp_thms if_True if_False)
  have 5: "resp (snd (tryDirs hostBA reqDocs [''missing''] conn0)) = resp conn0"
    using one c by (simp only: list.simps simp_thms if_True if_False)
  from a 1 2 3 4 5 show ?thesis by blast
qed

text \<open>
  Claim C4, as the code has it. In every listing the parent entry \<open>..\<close> (a directory)
  comes first, also when the directory is empty, and the other entries follow in the
  order in which \<^verbatim>\<open>ioutil.ReadDir\<close> returns them, that is sorted by file name;
  \<^verbatim>\<open>tryDirs\<close> itself does not reorder them, so an enumeration that is already in name
  order is kept as it is.
\<close>

theorem listing_parent_first_then_sorted:
  "map Entries (dirListsOf h r dirs) =
     map (\<lambda>infos. parentEntry # map toEntry (sort_key fiName infos))
       (List.map_filter (\<lambda>dir. Readdir h (Join h dir (URLPath r))) dirs)
   \<and> (Readdir h (Join h dir (URLPath r)) = Some infos \<longrightarrow>
        map Entries (dirListsOf h r [dir]) = [parentEntry # map toEntry (sort_key fiName infos)]
        \<and> (sorted (map fiName infos) \<longrightarrow>
             map Entries (dirListsOf h r [dir]) = [parentEntry # map toEntry infos]))
   \<and> (Readdir h (Join h dir (URLPath r)) = Some [] \<longrightarrow>
        map Entries (dirListsOf h r [dir]) = [[parentEntry]])"
  by (simp add: dirListsOf_eq Entries_listings map_filter_def sort_key_sorted)

theorem listing_parent_first_then_sorted_witness:
  "Readdir hostBA (Join hostBA ''A'' (URLPath reqDocs)) = Some [exFile ''b.txt'', exFile ''a.txt'']
   \<and> Readdir hostBA (Join hostBA ''B'' (URLPath reqDocs)) = Some []
   \<and> map Entries (dirListsOf hostBA reqDocs [''A'']) =
       [[parentEntry, toEntry (exFile ''a.txt''), toEntry (exFile ''b.txt'')]]
   \<and> map Entries (dirListsOf hostBA reqDocs [''B'']) = [[parentEntry]]"
proof -
  have a: "Readdir hostBA (Join hostBA ''A'' (URLPath reqDocs)) =
      Some [exFile ''b.txt'', exFile ''a.txt'']"
    by (simp add: hostBA_def reqDocs_def exampleHost_def slashJoin_def)
  have b: "Readdir hostBA (Join hostBA ''B'' (URLPath reqDocs)) = Some []"
    by (simp add: hostBA_def reqDocs_def exampleHost_def slashJoin_def)
  have s: "sort_key fiName [exFile ''b.txt'', exFile ''a.txt''] = [exFile ''a.txt'', exFile ''b.txt'']"
    by code_simp
  have c: "map Entries (dirListsOf hostBA reqDocs [''A'']) =
       [parentEntry # map toEntry (sort_key fiName [exFile ''b.txt'', exFile ''a.txt''])]"
    using listing_parent_first_then_sorted[of hostBA reqDocs "[]" "''A''"
        "[exFile ''b.txt'', exFile ''a.txt'']"] a
    by blast
  have d: "map Entries (dirListsOf hostBA reqDocs [''B'']) = [[parentEntry]]"
    using listing_parent_first_then_sorted[of hostBA reqDocs "[]" "''B''" "[]"] b
    by blast
  from a b c[unfolded s] d show ?thesis by (simp only: list.map simp_thms)
qed

text \<open>
  Claim C4 as the specification words it fails: the filesystem enumerates the
  directory as \<open>b.txt\<close>, \<open>a.txt\<close> and the listing has \<open>..\<close>, \<open>a.txt\<close>, \<open>b.txt\<close>.
\<close>

theorem listing_order_counterexample:
  "map_option (map fiName) (Readdir hostBA (Join hostBA ''A'' (URLPath reqDocs))) =
       Some [''b.txt'', ''a.txt'']
   \<and> map (map Name) (map Entries (dirListsOf hostBA reqDocs [''A''])) =
       [[''..'', ''a.txt'', ''b.txt'']]
   \<and> map (map Name) (map Entries (dirListsOf hostBA reqDocs [''A''])) \<noteq>
       [[''..'', ''b.txt'', ''a.txt'']]"
  by code_simp

lemma probe_open1:
  "OpOpen q \<in> set (probe h x) \<Longrightarrow> \<exists>st. Stat h q = Some st \<and> \<not> fiIsDir st"
  by (cases "Stat h x") (auto simp: probe_def split: if_splits)

lemma probe_open:
  "OpOpen q \<in> set (concat (map (probe h) ps)) \<Longrightarrow> \<exists>st. Stat h q = Some st \<and> \<not> fiIsDir st"
  using probe_open1 by fastforce

lemma tryFiles_opens:
  assumes "OpOpen q \<in> set (fslog (snd (tryFiles h r dirs c)))"
  shows "OpOpen q \<in> set (fslog c) \<or> (\<exists>st. Stat h q = Some st \<and> \<not> fiIsDir st)"
proof (cases "find (servable h) (candidates h dirs (URLPath r))")
  case None
  with assms have "OpOpen q \<in> set (fslog c)
      \<or> OpOpen q \<in> set (concat (map (probe h) (candidates h dirs (URLPath r))))"
    by (simp add: tryFiles_eq)
  then show ?thesis using probe_open by blast
next
  case (Some path)
  with assms have "OpOpen q \<in> set (fslog c)
      \<or> OpOpen q \<in> set (concat (map (probe h)
            (takeWhile (\<lambda>q. \<not> servable h q) (candidates h dirs (URLPath r)) @ [path])))"
    by (simp add: tryFiles_eq)
  then show ?thesis using probe_open by blast
qed

lemma find_Some_set: "find P xs = Some x \<Longrightarrow> x \<in> set xs \<and> P x"
  by (induction xs) (auto split: if_splits)

lemma tryFiles_serves_file:
  assumes "fst (tryFiles h r dirs c)"
  shows "\<exists>path st. path \<in> set (candidates h dirs (URLPath r)) \<and> Stat h path = Some st
     \<and> \<not> fiIsDir st \<and> resp (snd (tryFiles h r dirs c)) = serveFile h r path (resp c)"
proof -
  from assms obtain path where f: "find (servable h) (candidates h dirs (URLPath r)) = Some path"
    by (auto simp: tryFiles_result)
  then have "path \<in> set (candidates h dirs (URLPath r))" and "servable h path"
    using find_Some_set[OF f] by auto
  moreover from \<open>servable h path\<close> obtain st where "Stat h path = Some st" "\<not> fiIsDir st"
    by (auto simp: servable_def split: option.splits)
  moreover have "resp (snd (tryFiles h r dirs c)) = serveFile h r path (resp c)"
    using f by (simp add: tryFiles_resp)
  ultimately show ?thesis by blast
qed

lemma tryFile_directory:
  assumes "Stat h p = Some st" and "fiIsDir st"
  shows "\<not> fst (tryFile h r p c) \<and> resp (snd (tryFile h r p c)) = resp c"
  using assms by (simp add: tryFile_eq servable_def)

lemma scenario_sub:
  assumes "Stat h (Join h B (URLPath r)) = Some stB" and "fiIsDir stB"
    and "Readdir h (Join h A (URLPath r)) = None"
    and "Readdir h (Join h B (URLPath r)) = Some infos"
  shows "OpOpen (Join h B (URLPath r)) \<notin> set (fslog (snd (tryFiles h r [A, B] conn0)))
    \<and> fst (tryDirs h r [A, B] c)
    \<and> map LocalPath (dirListsOf h r [A, B]) = [B]
    \<and> OpReadDir (Join h B (URLPath r)) \<in> set (fslog (snd (tryDirs h r [A, B] c)))"
proof (intro conjI)
  show "OpOpen (Join h B (URLPath r)) \<notin> set (fslog (snd (tryFiles h r [A, B] conn0)))"
    using tryFiles_opens[of "Join h B (URLPath r)" h r "[A, B]" conn0] assms(1,2)
    by (auto simp: conn0_def)
  have e: "filter (enumerates h (URLPath r)) [A, B] = [B]"
    using assms(3,4) by (simp add: enumerates_def)
  show "fst (tryDirs h r [A, B] c)"
    using e by (simp add: tryDirs_eq listings_empty_iff)
  show "map LocalPath (dirListsOf h r [A, B]) = [B]"
    using e by (simp add: dirListsOf_eq LocalPath_listings)
  show "OpReadDir (Join h B (URLPath r)) \<in> set (fslog (snd (tryDirs h r [A, B] c)))"
    by (simp add: tryDirs_eq)
qed

text \<open>
  Claim C5. The file pass never matches a path that stats as a directory: \<^verbatim>\<open>tryFile\<close>
  on such a path returns false and writes nothing, and whatever \<^verbatim>\<open>tryFiles\<close> serves is a
  candidate path that stats as something other than a directory. With roots \<open>[A, B]\<close>,
  where the path is a directory under \<open>B\<close> and cannot be enumerated under \<open>A\<close> (there it
  is a file, or absent), the file pass never opens the directory of \<open>B\<close>, and the listing
  pass enumerates it: it returns true with the one listing of root \<open>B\<close>.
\<close>

theorem file_pass_never_serves_directory:
  "(Stat h p = Some st \<and> fiIsDir st \<longrightarrow>
      \<not> fst (tryFile h r p c) \<and> resp (snd (tryFile h r p c)) = resp c)
   \<and> (fst (tryFiles h r dirs c) \<longrightarrow>
        (\<exists>path st'. path \<in> set (candidates h dirs (URLPath r)) \<and> Stat h path = Some st'
           \<and> \<not> fiIsDir st' \<and> resp (snd (tryFiles h r dirs c)) = serveFile h r path (resp c)))
   \<and> (Stat h (Join h B (URLPath r)) = Some stB \<and> fiIsDir stB
        \<and> Readdir h (Join h A (URLPath r)) = None
        \<and> Readdir h (Join h B (URLPath r)) = Some infos \<longrightarrow>
        OpOpen (Join h B (URLPath r)) \<notin> set (fslog (snd (tryFiles h r [A, B] conn0)))
        \<and> fst (tryDirs h r [A, B] c)
        \<and> map LocalPath (dirListsOf h r [A, B]) = [B]
        \<and> OpReadDir (Join h B (URLPath r)) \<in> set (fslog (snd (tryDirs h r [A, B] c))))"
  using tryFile_directory[of h p st r c] tryFiles_serves_file[of h r dirs c]
    scenario_sub[of h B r stB A infos c]
  by blast

theorem file_pass_never_serves_directory_witness:
  "Stat hostSub (Join hostSub ''A'' (URLPath reqSub)) = Some (exFile ''sub'')
   \<and> Stat hostSub (Join hostSub ''B'' (URLPath reqSub)) = Some (exDir ''sub'')
   \<and> fiIsDir (exDir ''sub'')
   \<and> Readdir hostSub (Join hostSub ''A'' (URLPath reqSub)) = None
   \<and> Readdir hostSub (Join hostSub ''B'' (URLPath reqSub)) = Some [exFile ''inner.txt'']
   \<and> \<not> fst (tryFile hostSub reqSub ''B/sub'' conn0)
   \<and> fst (tryFiles hostSub reqSub [''A'', ''B''] conn0)
   \<and> body (resp (snd (tryFiles hostSub reqSub [''A'', ''B''] conn0))) = ''a file named sub''
   \<and> OpOpen ''B/sub'' \<notin> set (fslog (snd (tryFiles hostSub reqSub [''A'', ''B''] conn0)))
   \<and> fst (tryDirs hostSub reqSub [''A'', ''B''] conn0)
   \<and> map LocalPath (dirListsOf hostSub reqSub [''A'', ''B'']) = [''B'']"
proof -
  have jb: "Join hostSub ''B'' (URLPath reqSub) = ''B/sub''"
    by (simp add: hostSub_def reqSub_def exampleHost_def slashJoin_def)
  have a: "Stat hostSub (Join hostSub ''A'' (URLPath reqSub)) = Some (exFile ''sub'')"
    by (simp add: hostSub_def reqSub_def exampleHost_def slashJoin_def)
  have b: "Stat hostSub (Join hostSub ''B'' (URLPath reqSub)) = Some (exDir ''sub'')"
    by (simp add: hostSub_def reqSub_def exampleHost_def slashJoin_def)
  have c: "fiIsDir (exDir ''sub'')" by (simp add: exDir_def)
  have d: "Readdir hostSub (Join hostSub ''A'' (URLPath reqSub)) = None"
    by (simp add: hostSub_def reqSub_def exampleHost_def slashJoin_def)
  have e: "Readdir hostSub (Join hostSub ''B'' (URLPath reqSub)) = Some [exFile ''inner.txt'']"
    by (simp add: hostSub_def reqSub_def exampleHost_def slashJoin_def)
  note t = file_pass_never_serves_directory[of hostSub "''B/sub''" "exDir ''sub''" reqSub conn0
      "[''A'', ''B'']" "''B''" "exDir ''sub''" "''A''" "[exFile ''inner.txt'']"]
  have f: "\<not> fst (tryFile hostSub reqSub ''B/sub'' conn0)"
    using t b c unfolding jb by blast
  have g: "fst (tryFiles hostSub reqSub [''A'', ''B''] conn0)"
    by code_simp
  have h: "body (resp (snd (tryFiles hostSub reqSub [''A'', ''B''] conn0))) = ''a file named sub''"
    by code_simp
  have i: "OpOpen ''B/sub'' \<notin> set (fslog (snd (tryFiles hostSub reqSub [''A'', ''B''] conn0)))"
    using t b c d e unfolding jb by blast
  have j: "fst (tryDirs hostSub reqSub [''A'', ''B''] conn0)"
    using t b c d e by blast
  have k: "map LocalPath (dirListsOf hostSub reqSub [''A'', ''B'']) = [''B'']"
    using t b c d e by blast
  from a b c d e f g h i j k show ?thesis by blast
qed

section \<open>The listing template escapes what it inserts\<close>

lemma htmlReplacer_filter:
  assumes "\<And>c. filter P (case table c of Some repl \<Rightarrow> repl | None \<Rightarrow> [c]) = []"
  shows "filter P (htmlReplacer s table) = []"
  unfolding htmlReplacer_def using assms by (induction s) simp_all

lemma htmlEscaper_no_markup: "filter isMarkup (htmlEscaper s) = []"
  unfolding htmlEscaper_def
  by (rule htmlReplacer_filter) (simp add: htmlReplacementTable_def isMarkup_def)

lemma urlChar_hexDigit: "urlChar (hexDigit n)"
proof -
  have "hexDigit n \<in> set ''0123456789abcdef''"
    unfolding hexDigit_def by (rule nth_mem) simp
  then show ?thesis
    by (auto simp: urlChar_def less_eq_char_def)
qed

lemma urlKeep_urlChar: "urlKeep c rest \<Longrightarrow> urlChar c"
  by (auto simp: urlKeep_def urlChar_def split: if_splits)

lemma urlNormalizer_urlChar: "x \<in> set (urlNormalizer s) \<Longrightarrow> urlChar x"
proof (induction s)
  case Nil
  then show ?case by simp
next
  case (Cons c s)
  then show ?case
    by (auto simp: percentEncode_def urlChar_hexDigit urlKeep_urlChar split: if_splits)
       (simp add: urlChar_def)
qed

text \<open>The output of the URL normalizer is ASCII.\<close>

lemma urlChar_ascii: "urlChar c \<Longrightarrow> c < CHR 0x80"
  by (auto simp: urlChar_def less_eq_char_def less_char_def)

lemma urlNormalizer_ascii: "x \<in> set (urlNormalizer s) \<Longrightarrow> x < CHR 0x80"
  by (rule urlChar_ascii) (rule urlNormalizer_urlChar)

lemma nospace_char:
  "urlChar c \<Longrightarrow>
   filter endsUnquoted (case htmlNospaceReplacementTable c of Some repl \<Rightarrow> repl | None \<Rightarrow> [c]) = []"
  by (simp add: htmlNospaceReplacementTable_def endsUnquoted_def)

lemma htmlNospaceEscaper_safe:
  assumes "\<And>x. x \<in> set s \<Longrightarrow> urlChar x"
  shows "filter endsUnquoted (htmlNospaceEscaper s) = []"
proof (cases "s = []")
  case True
  then show ?thesis by (simp add: htmlNospaceEscaper_def filterFailsafe_def endsUnquoted_def)
next
  case False
  have "filter endsUnquoted (htmlReplacer s htmlNospaceReplacementTable) = []"
    unfolding htmlReplacer_def using assms by (induction s) (simp_all add: nospace_char)
  with False show ?thesis by (simp add: htmlNospaceEscaper_def)
qed

lemma hrefEscaper_safe: "filter endsUnquoted (hrefEscaper s) = []"
  unfolding hrefEscaper_def
  by (rule htmlNospaceEscaper_safe) (rule urlNormalizer_urlChar)

lemma isMarkup_endsUnquoted: "isMarkup c \<Longrightarrow> endsUnquoted c"
  by (auto simp: isMarkup_def endsUnquoted_def)

lemma hrefEscaper_no_markup: "filter isMarkup (hrefEscaper s) = []"
proof -
  have "\<forall>x \<in> set (hrefEscaper s). \<not> endsUnquoted x"
    using hrefEscaper_safe[of s] by (simp add: filter_empty_conv)
  then have "\<forall>x \<in> set (hrefEscaper s). \<not> isMarkup x"
    using isMarkup_endsUnquoted by blast
  then show ?thesis by (simp add: filter_empty_conv)
qed

lemma markup_append: "markup (xs @ ys) = markup xs @ markup ys"
  by (simp add: markup_def)

lemma markup_renderEntry: "markup (renderEntry e) = ''<'' @ dq @ dq @ ''><>''"
  by (simp add: renderEntry_def markup_def hrefEscaper_no_markup htmlEscaper_no_markup
      tab_def dq_def isMarkup_def)

lemma markup_entries:
  "markup (concat (map renderEntry es)) = concat (map (\<lambda>e. ''<'' @ dq @ dq @ ''><>'') es)"
proof (induction es)
  case Nil
  show ?case by (simp add: markup_def)
next
  case (Cons e es)
  show ?case by (simp add: markup_append markup_renderEntry Cons.IH)
qed

lemma markup_renderDirList:
  "markup (renderDirList d) =
     ''<><><><><><>'' @ concat (map (\<lambda>e. ''<'' @ dq @ dq @ ''><>'') (Entries d))"
proof -
  have "markup (renderDirList d) =
      ''<><><><><><>'' @ markup (concat (map renderEntry (Entries d)))"
    by (simp add: renderDirList_def markup_def htmlEscaper_no_markup tab_def isMarkup_def)
  then show ?thesis by (simp only: markup_entries)
qed

lemma markup_anonymous: "markup (renderDirList (anonymous d)) = markup (renderDirList d)"
  by (simp add: markup_renderDirList anonymous_def comp_def)

lemma markup_lists:
  "markup (concat (map renderDirList (map anonymous ds))) = markup (concat (map renderDirList ds))"
  by (induction ds) (simp_all add: markup_append markup_anonymous)

text \<open>
  Claim C9. Every entry name reaches the page escaped. The tag and quote characters
  of a rendered entry are those of the template alone, whatever the name is; the value
  put after \<open>href=\<close> has no character that would end an unquoted attribute value; the tag
  and quote characters of a whole page are those of the page with every name and path
  replaced by a harmless one, so no name injects markup. An entry named
  \<open><script>.txt\<close> is rendered with \<open>%3cscript%3e.txt\<close> as the link target and
  \<open>&lt;script&gt;.txt\<close> as the link text. The page is what \<^verbatim>\<open>tryDirs\<close> writes.
\<close>

theorem listing_names_escaped:
  "markup (renderEntry e) = ''<'' @ dq @ dq @ ''><>''
   \<and> filter endsUnquoted (hrefEscaper (Name e)) = []
   \<and> markup (renderPage dirLists) = markup (renderPage (map anonymous dirLists))
   \<and> renderEntry \<lparr>Name = ''<script>.txt'', IsDir = False\<rparr> =
       ''\<newline>'' @ tab @ tab @ tab @ ''<a class='' @ dq @ ''entry'' @ dq @
       '' href=%3cscript%3e.txt>&lt;script&gt;.txt</a>\<newline>'' @ tab @ tab
   \<and> (fst (tryDirs h r dirs c) \<longrightarrow>
        body (resp (snd (tryDirs h r dirs c))) = body (resp c) @ renderPage (dirListsOf h r dirs))"
proof -
  have a: "markup (renderPage dirLists) = markup (renderPage (map anonymous dirLists))"
    by (simp only: renderPage_def markup_append markup_lists)
  have b: "renderEntry \<lparr>Name = ''<script>.txt'', IsDir = False\<rparr> =
       ''\<newline>'' @ tab @ tab @ tab @ ''<a class='' @ dq @ ''entry'' @ dq @
       '' href=%3cscript%3e.txt>&lt;script&gt;.txt</a>\<newline>'' @ tab @ tab"
    by code_simp
  have c: "fst (tryDirs h r dirs c) \<longrightarrow>
        body (resp (snd (tryDirs h r dirs c))) = body (resp c) @ renderPage (dirListsOf h r dirs)"
    by (simp add: tryDirs_eq dirListsOf_eq htmlTmpl_Execute_def Write_def
        WriteHeader_def Header_Set_def Let_def split: option.splits)
  from a b c markup_renderEntry[of e] hrefEscaper_safe[of "Name e"] show ?thesis by blast
qed

theorem listing_names_escaped_witness:
  "fst (tryDirs hostScript reqDocs [''A''] conn0)
   \<and> map (map Name) (map Entries (dirListsOf hostScript reqDocs [''A''])) =
       [[''..'', ''<script>.txt'']]
   \<and> body (resp (snd (tryDirs hostScript reqDocs [''A''] conn0))) =
       renderPage (dirListsOf hostScript reqDocs [''A''])
   \<and> markup (renderEntry \<lparr>Name = ''<script>.txt'', IsDir = False\<rparr>) = ''<'' @ dq @ dq @ ''><>''"
proof -
  have a: "fst (tryDirs hostScript reqDocs [''A''] conn0)"
    by code_simp
  have b: "map (map Name) (map Entries (dirListsOf hostScript reqDocs [''A''])) =
      [[''..'', ''<script>.txt'']]"
    by code_simp
  note t = listing_names_escaped[of "\<lparr>Name = ''<script>.txt'', IsDir = False\<rparr>" "[]"
      hostScript reqDocs "[''A'']" conn0]
  have c: "body (resp (snd (tryDirs hostScript reqDocs [''A''] conn0))) =
       body (resp conn0) @ renderPage (dirListsOf hostScript reqDocs [''A''])"
    using t a by blast
  have d: "markup (renderEntry \<lparr>Name = ''<script>.txt'', IsDir = False\<rparr>) =
      ''<'' @ dq @ dq @ ''><>''"
    using t by blast
  from a b c d show ?thesis by (simp add: conn0_def)
qed

end
